theory Spec2Isabelle
  imports Complex_Main "HOL-Library.AList"
begin

section \<open>Region scanner: the VAD scan iterator\<close>

text \<open>
  The scanner capability used by \<^verbatim>\<open>scan_iterator\<close> exposes two integer attributes,
  \<^verbatim>\<open>chunk_size\<close> and \<^verbatim>\<open>overlap\<close>.  A VAD node answers \<^verbatim>\<open>get_start()\<close> and
  \<^verbatim>\<open>get_end()\<close>; the traversal of the VAD tree is the list of its nodes in the order the
  generator yields them.  Python integers are unbounded, hence \<^typ>\<open>int\<close>.
\<close>

record scanner =
  chunk_size :: int
  overlap :: int

record vad =
  get_start :: int
  get_end :: int

type_synonym iterator_value = "(string \<times> int \<times> int) list \<times> int"

text \<open>
  The body of the \<^verbatim>\<open>for vad in vad_root.traverse()\<close> loop: the \<^verbatim>\<open>while\<close> loop yields
  full chunks and moves \<^verbatim>\<open>start\<close> on by \<^verbatim>\<open>chunk_size\<close>; the statement after it yields the
  remainder.  The loop need not end (a \<^verbatim>\<open>chunk_size\<close> of zero or less), so the result is
  optional: \<^term>\<open>None\<close> stands for a loop that never leaves.
\<close>

partial_function (option) scan_vad ::
  "string \<Rightarrow> scanner \<Rightarrow> int \<Rightarrow> int \<Rightarrow> iterator_value list option" where
  "scan_vad layer_name scanner start end =
     (if end - start > chunk_size scanner + overlap scanner
      then Option.bind (scan_vad layer_name scanner (start + chunk_size scanner) end)
             (\<lambda>rest. Some (([(layer_name, start, chunk_size scanner + overlap scanner)],
                             start + chunk_size scanner + overlap scanner) # rest))
      else Some [([(layer_name, start, end - start)], end)])"

fun scan_iterator ::
  "string \<Rightarrow> vad list \<Rightarrow> scanner \<Rightarrow> int \<Rightarrow> int \<Rightarrow> iterator_value list option" where
  "scan_iterator layer_name [] scanner min_address max_address = Some []"
| "scan_iterator layer_name (v # vads) scanner min_address max_address =
     Option.bind (scan_vad layer_name scanner (get_start v) (get_end v))
       (\<lambda>chunks. Option.bind (scan_iterator layer_name vads scanner min_address max_address)
          (\<lambda>rest. Some (chunks @ rest)))"

text \<open>Vocabulary for stating properties of the yielded values.\<close>

definition full_chunk :: "string \<Rightarrow> scanner \<Rightarrow> int \<Rightarrow> iterator_value" where
  "full_chunk layer_name scanner start =
     ([(layer_name, start, chunk_size scanner + overlap scanner)],
      start + chunk_size scanner + overlap scanner)"

definition last_chunk :: "string \<Rightarrow> int \<Rightarrow> int \<Rightarrow> iterator_value" where
  "last_chunk layer_name start end = ([(layer_name, start, end - start)], end)"

definition full_count :: "scanner \<Rightarrow> int \<Rightarrow> int \<Rightarrow> nat" where
  "full_count scanner start end =
     nat ((end - start - overlap scanner - 1) div chunk_size scanner)"

definition chunk_list :: "string \<Rightarrow> scanner \<Rightarrow> int \<Rightarrow> int \<Rightarrow> iterator_value list" where
  "chunk_list layer_name scanner start end =
     map (\<lambda>i. full_chunk layer_name scanner (start + int i * chunk_size scanner))
         [0..<full_count scanner start end]
     @ [last_chunk layer_name
          (start + int (full_count scanner start end) * chunk_size scanner) end]"

fun chunk_range :: "iterator_value \<Rightarrow> int set" where
  "chunk_range (reads, hint) = (\<Union>(l, a, n) \<in> set reads. {a ..< a + n})"

fun chunk_start :: "iterator_value \<Rightarrow> int" where
  "chunk_start (reads, hint) = (case reads of (l, a, n) # _ \<Rightarrow> a | [] \<Rightarrow> hint)"

fun chunk_length :: "iterator_value \<Rightarrow> int" where
  "chunk_length (reads, hint) = (\<Sum>(l, a, n) \<leftarrow> reads. n)"

section \<open>Errors\<close>

text \<open>
  The exceptions of the sources, as values.  \<^verbatim>\<open>DanglingAddress\<close> is the answer for an
  address outside the heap; a Python reference always denotes an object, so it is not
  reached from a heap whose addresses are all allocated.
\<close>

datatype error =
    ValidationError | LookupError | ChildNotFound | NotSupported
  | KeyError | IndexError | TypeError | AttributeError | DanglingAddress

section \<open>Plugin configuration and yara rules\<close>

text \<open>
  The plugin configuration is a dictionary from option names to values.  The list
  \<^verbatim>\<open>get_requirements\<close> declares the options the plugin accepts.
\<close>

datatype config_value = CNone | CBool bool | CInt int | CStr string

type_synonym config = "string \<rightharpoonup> config_value"

datatype requirement_kind =
    TranslationLayerRequirement | SymbolRequirement | BooleanRequirement
  | StringRequirement | URIRequirement | IntRequirement

record requirement =
  req_kind :: requirement_kind
  req_name :: string
  req_default :: config_value
  req_optional :: bool

definition get_requirements :: "requirement list" where
  "get_requirements =
    [\<lparr>req_kind = TranslationLayerRequirement, req_name = ''primary'',
        req_default = CNone, req_optional = False\<rparr>,
     \<lparr>req_kind = SymbolRequirement, req_name = ''nt_symbols'',
        req_default = CNone, req_optional = False\<rparr>,
     \<lparr>req_kind = BooleanRequirement, req_name = ''all'',
        req_default = CBool False, req_optional = True\<rparr>,
     \<lparr>req_kind = BooleanRequirement, req_name = ''insensitive'',
        req_default = CBool False, req_optional = True\<rparr>,
     \<lparr>req_kind = BooleanRequirement, req_name = ''kernel'',
        req_default = CBool False, req_optional = True\<rparr>,
     \<lparr>req_kind = BooleanRequirement, req_name = ''wide'',
        req_default = CBool False, req_optional = True\<rparr>,
     \<lparr>req_kind = StringRequirement, req_name = ''yara_rules'',
        req_default = CNone, req_optional = True\<rparr>,
     \<lparr>req_kind = URIRequirement, req_name = ''yara_file'',
        req_default = CNone, req_optional = True\<rparr>,
     \<lparr>req_kind = IntRequirement, req_name = ''max_size'',
        req_default = CInt 0x40000000, req_optional = True\<rparr>]"

text \<open>
  \<^verbatim>\<open>self.config.get(key, default)\<close>: the stored value, or the default for a missing key.
\<close>

definition config_get :: "config \<Rightarrow> string \<Rightarrow> config_value \<Rightarrow> config_value" where
  "config_get cfg key dflt = (case cfg key of None \<Rightarrow> dflt | Some v \<Rightarrow> v)"

text \<open>
  The truth value Python gives a configuration value in a condition.
\<close>

fun truthy :: "config_value \<Rightarrow> bool" where
  "truthy CNone = False"
| "truthy (CBool b) = b"
| "truthy (CInt i) = (i \<noteq> 0)"
| "truthy (CStr s) = (s \<noteq> [])"

text \<open>
  The rule-building part of \<^verbatim>\<open>_generator\<close>.  The yara engine is an external library, so
  the model returns the request handed to \<^verbatim>\<open>yara.compile\<close>: the rule source text, the
  rule file, or no rules at all (the branch that only logs an error).  Indexing an empty
  rule string raises \<^verbatim>\<open>IndexError\<close>.
\<close>

datatype rules_request = CompileSources string | CompileFile string | NoRules

definition build_rules :: "config \<Rightarrow> error + rules_request" where
  "build_rules cfg =
    (if config_get cfg ''yara_rules'' CNone \<noteq> CNone then
       (case cfg ''yara_rules'' of
          Some (CStr rule) \<Rightarrow>
            (case rule of
               [] \<Rightarrow> Inl IndexError
             | c # _ \<Rightarrow>
                 let rule = (if c \<notin> {CHR ''{'', CHR ''/''}
                             then [CHR 0x22] @ rule @ [CHR 0x22] else rule);
                     rule = (if truthy (config_get cfg ''case'' (CBool False))
                             then rule @ '' nocase'' else rule);
                     rule = (if truthy (config_get cfg ''wide'' (CBool False))
                             then rule @ '' wide ascii'' else rule)
                 in Inr (CompileSources
                           (''rule r1 {strings: $a = '' @ rule @ '' condition: $a}'')))
        | _ \<Rightarrow> Inl TypeError)
     else if config_get cfg ''yara_file'' CNone \<noteq> CNone then
       (case cfg ''yara_file'' of
          Some (CStr uri) \<Rightarrow> Inr (CompileFile uri)
        | _ \<Rightarrow> Inl TypeError)
     else Inr NoRules)"

section \<open>Templates on a heap\<close>

text \<open>
  Templates, their parameter dictionaries and the dictionaries local to a call are Python
  objects with identity.  They live in a heap, a list of objects addressed by position, so
  that mutation in place and sharing are visible.  Child templates are referred to by
  address.  A parameter dictionary is an association list in insertion order, as a Python
  dictionary is.
\<close>

type_synonym addr = nat

text \<open>
  Modelled from the spec: the object implementations (the classes derived from
  \<^verbatim>\<open>interfaces.objects.ObjectInterface\<close>) are not part of the sources.  A class is
  described by its name, by whether it satisfies the Object capability contract, by
  whether it defines a nested layout (composite type) or not (scalar or base type), and by
  the order of the two tests of its relative child offset, which the spec leaves open:
  \<open>membership_first\<close> says that it looks for the child among the children before it looks
  at its own layout.
\<close>

record object_class =
  class_name :: string
  is_object_interface :: bool
  nested_layout :: bool
  membership_first :: bool

datatype pyval =
    VNone | VInt int | VStr string | VClass object_class | VMembers "(int \<times> addr) list"

type_synonym pydict = "(string \<times> pyval) list"

datatype pyobj = Dict pydict | ObjectTemplate addr | ReferenceTemplate addr

type_synonym heap = "pyobj list"

text \<open>
  Reading an address, allocating a fresh object, and the dictionary operations used by the
  sources, each acting on the dictionary object at an address.
\<close>

definition fetch :: "heap \<Rightarrow> addr \<Rightarrow> pyobj option" where
  "fetch h a = (if a < length h then Some (h ! a) else None)"

definition alloc :: "heap \<Rightarrow> pyobj \<Rightarrow> addr \<times> heap" where
  "alloc h obj = (length h, h @ [obj])"

definition dict_update :: "heap \<Rightarrow> addr \<Rightarrow> pydict \<Rightarrow> error + heap" where
  "dict_update h a other =
     (case fetch h a of
        Some (Dict d) \<Rightarrow> Inr (h[a := Dict (foldl (\<lambda>acc (k, v). AList.update k v acc) d other)])
      | Some _ \<Rightarrow> Inl AttributeError
      | None \<Rightarrow> Inl DanglingAddress)"

definition dict_delitem :: "heap \<Rightarrow> addr \<Rightarrow> string \<Rightarrow> error + heap" where
  "dict_delitem h a k =
     (case fetch h a of
        Some (Dict d) \<Rightarrow>
          (if k \<in> fst ` set d then Inr (h[a := Dict (AList.delete k d)]) else Inl KeyError)
      | Some _ \<Rightarrow> Inl TypeError
      | None \<Rightarrow> Inl DanglingAddress)"

definition dict_items :: "heap \<Rightarrow> addr \<Rightarrow> error + pydict" where
  "dict_items h a =
     (case fetch h a of
        Some (Dict d) \<Rightarrow> Inr d
      | Some _ \<Rightarrow> Inl TypeError
      | None \<Rightarrow> Inl DanglingAddress)"

text \<open>
  Modelled from the spec: the execution context carries the Type Registry (symbol space),
  a mapping from qualified structure names to templates.  An object location is a layer
  name and an offset.  The constructor of an object implementation is not part of the
  sources; a constructed Object is the record of the constructor call: the class, the
  context, the location and the keyword arguments it was given.
\<close>

record execution_context =
  symbol_space :: "string \<rightharpoonup> addr"

type_synonym object_info = "string \<times> int"

text \<open>
  Modelled from the spec: the constructor of an object implementation is not part of the
  sources.  An Object is the record of what its constructor was called with.
\<close>

record object =
  obj_class :: object_class
  obj_context :: execution_context
  obj_info :: object_info
  obj_arguments :: pydict

text \<open>
  Modelled from the spec: the base class \<^verbatim>\<open>interfaces.objects.Template\<close> is not part
  of the sources.  It stores the construction arguments together with
  \<^verbatim>\<open>structure_name\<close> in a dictionary of its own; \<^verbatim>\<open>volinfo\<close> gives access to that
  dictionary, attribute access on it reads a key, and \<^verbatim>\<open>update_volinfo\<close> updates
  it in place.
\<close>

definition Template_init :: "heap \<Rightarrow> pyval \<Rightarrow> pydict \<Rightarrow> addr \<times> heap" where
  "Template_init h structure_name arguments =
     alloc h (Dict (AList.update ''structure_name'' structure_name arguments))"

text \<open>
  Modelled from the spec: the property \<^verbatim>\<open>volinfo\<close> of the base class, the parameter
  dictionary of a template.
\<close>

definition volinfo :: "heap \<Rightarrow> addr \<Rightarrow> error + addr" where
  "volinfo h self =
     (case fetch h self of
        Some (ObjectTemplate d) \<Rightarrow> Inr d
      | Some (ReferenceTemplate d) \<Rightarrow> Inr d
      | Some (Dict _) \<Rightarrow> Inl AttributeError
      | None \<Rightarrow> Inl DanglingAddress)"

text \<open>
  Modelled from the spec: attribute access \<^verbatim>\<open>self.volinfo.name\<close>, a read of the key in
  the parameter dictionary.
\<close>

definition volinfo_attr :: "heap \<Rightarrow> addr \<Rightarrow> string \<Rightarrow> error + pyval" where
  "volinfo_attr h self name =
     (case volinfo h self of
        Inl e \<Rightarrow> Inl e
      | Inr d \<Rightarrow>
          (case dict_items h d of
             Inl e \<Rightarrow> Inl e
           | Inr vi \<Rightarrow> (case map_of vi name of None \<Rightarrow> Inl AttributeError | Some v \<Rightarrow> Inr v)))"

text \<open>
  Modelled from the spec: \<^verbatim>\<open>update_volinfo\<close> of the base class, an update of the
  parameter dictionary in place.
\<close>

definition update_volinfo :: "heap \<Rightarrow> addr \<Rightarrow> pydict \<Rightarrow> error + heap" where
  "update_volinfo h self newargs =
     (case volinfo h self of Inl e \<Rightarrow> Inl e | Inr d \<Rightarrow> dict_update h d newargs)"

text \<open>
  Modelled from the spec: \<^verbatim>\<open>validity.ValidityRoutines._class_check\<close> is not part of the
  sources.  It fails with a validation error when the object implementation is missing or
  does not satisfy the Object capability contract.
\<close>

definition class_check :: "pyval \<Rightarrow> error + unit" where
  "class_check klass =
     (case klass of
        VClass c \<Rightarrow> (if is_object_interface c then Inr () else Inl ValidationError)
      | _ \<Rightarrow> Inl ValidationError)"






text \<open>
  \<^verbatim>\<open>ObjectTemplate.__init__\<close>: the base class initialiser, then the class check, then the
  object class is stored among the parameters.
\<close>

definition ObjectTemplate_init ::
  "heap \<Rightarrow> pyval \<Rightarrow> pyval \<Rightarrow> pydict \<Rightarrow> (error + addr) \<times> heap" where
  "ObjectTemplate_init h object_class structure_name arguments =
     (let (d, h1) = Template_init h structure_name arguments;
          (self, h2) = alloc h1 (ObjectTemplate d)
      in case class_check object_class of
           Inl e \<Rightarrow> (Inl e, h2)
         | Inr _ \<Rightarrow>
             (case update_volinfo h2 self [(''object_class'', object_class)] of
                Inl e \<Rightarrow> (Inl e, h2)
              | Inr h3 \<Rightarrow> (Inr self, h3)))"

text \<open>
  \<^verbatim>\<open>self.volinfo.object_class\<close>, followed by the delegations of \<^verbatim>\<open>size\<close>,
  \<^verbatim>\<open>children\<close>, \<^verbatim>\<open>relative_child_offset\<close> and \<^verbatim>\<open>replace_child\<close> to the class.
  The class method \<^verbatim>\<open>_template_size\<close> is not part of the sources and the spec does not
  fix what it computes; it is a parameter of \<open>size_template\<close>.
\<close>

definition object_class_of :: "heap \<Rightarrow> addr \<Rightarrow> error + object_class" where
  "object_class_of h self =
     (case volinfo_attr h self ''object_class'' of
        Inl e \<Rightarrow> Inl e
      | Inr (VClass c) \<Rightarrow> Inr c
      | Inr _ \<Rightarrow> Inl AttributeError)"

definition size_template ::
  "(object_class \<Rightarrow> heap \<Rightarrow> addr \<Rightarrow> error + int) \<Rightarrow> heap \<Rightarrow> addr \<Rightarrow> error + int" where
  "size_template template_size h self =
     (case object_class_of h self of Inl e \<Rightarrow> Inl e | Inr c \<Rightarrow> template_size c h self)"




text \<open>
  \<^verbatim>\<open>ObjectTemplate.__call__\<close>: a fresh dictionary is allocated, filled from the template
  parameters, and loses its \<^verbatim>\<open>object_class\<close> key; the class, read from the template
  parameters after that, is called with the keywords \<^verbatim>\<open>context\<close> and
  \<^verbatim>\<open>object_info\<close> and the remaining parameters as further keywords.  A parameter named
  \<^verbatim>\<open>context\<close> or \<^verbatim>\<open>object_info\<close> is then a keyword given twice, which Python refuses
  with a \<^verbatim>\<open>TypeError\<close> before the class is called; so does a value that is not a class.
\<close>

definition ObjectTemplate_call ::
  "heap \<Rightarrow> addr \<Rightarrow> execution_context \<Rightarrow> object_info \<Rightarrow> (error + object) \<times> heap" where
  "ObjectTemplate_call h self ctx object_info =
     (let (arguments, h1) = alloc h (Dict [])
      in case volinfo h1 self of
           Inl e \<Rightarrow> (Inl e, h1)
         | Inr d \<Rightarrow>
        (case dict_items h1 d of
           Inl e \<Rightarrow> (Inl e, h1)
         | Inr vi \<Rightarrow>
        (case dict_update h1 arguments vi of
           Inl e \<Rightarrow> (Inl e, h1)
         | Inr h2 \<Rightarrow>
        (case dict_delitem h2 arguments ''object_class'' of
           Inl e \<Rightarrow> (Inl e, h2)
         | Inr h3 \<Rightarrow>
        (case volinfo_attr h3 self ''object_class'' of
           Inl e \<Rightarrow> (Inl e, h3)
         | Inr callee \<Rightarrow>
        (case dict_items h3 arguments of
           Inl e \<Rightarrow> (Inl e, h3)
         | Inr kwargs \<Rightarrow>
             if ''context'' \<in> fst ` set kwargs \<or> ''object_info'' \<in> fst ` set kwargs
             then (Inl TypeError, h3)
             else (case callee of
                     VClass cls \<Rightarrow>
                       (Inr \<lparr>obj_class = cls, obj_context = ctx,
                             obj_info = object_info, obj_arguments = kwargs\<rparr>, h3)
                   | _ \<Rightarrow> (Inl TypeError, h3))))))))"


text \<open>
  Any number of constructions from one template, one after the other on the same heap.
\<close>

fun construct_many :: "heap \<Rightarrow> addr \<Rightarrow> (execution_context \<times> object_info) list \<Rightarrow> heap" where
  "construct_many h self [] = h"
| "construct_many h self ((ctx, object_info) # calls) =
     construct_many (snd (ObjectTemplate_call h self ctx object_info)) self calls"

text \<open>
  A small heap used to evaluate the operations: a composite template at address 1 with two
  scalar children at addresses 3 and 5, and a deferred reference at address 7.
\<close>

definition Struct_class :: object_class where
  "Struct_class = \<lparr>class_name = ''Struct'', is_object_interface = True, nested_layout = True,
                    membership_first = False\<rparr>"

definition Integer_class :: object_class where
  "Integer_class = \<lparr>class_name = ''Integer'', is_object_interface = True,
                     nested_layout = False, membership_first = False\<rparr>"


definition example_heap :: heap where
  "example_heap =
    [Dict [(''structure_name'', VStr ''nt!_LIST_ENTRY''), (''size'', VInt 8),
           (''members'', VMembers [(0, 3), (4, 5)]), (''object_class'', VClass Struct_class)],
     ObjectTemplate 0,
     Dict [(''structure_name'', VStr ''nt!pointer''), (''size'', VInt 4),
           (''object_class'', VClass Integer_class)],
     ObjectTemplate 2,
     Dict [(''structure_name'', VStr ''nt!unsigned long''), (''size'', VInt 4),
           (''object_class'', VClass Integer_class)],
     ObjectTemplate 4,
     Dict [(''structure_name'', VStr ''nt!_LIST_ENTRY'')],
     ReferenceTemplate 6]"




text \<open>
  The heap that \<^verbatim>\<open>ObjectTemplate.__init__\<close> leaves when a template is built, on the empty
  heap, with a parameter named \<^verbatim>\<open>context\<close>.
\<close>

definition clash_heap :: heap where
  "clash_heap =
     [Dict [(''context'', VInt 5), (''structure_name'', VStr ''nt!_ETHREAD''),
            (''object_class'', VClass Struct_class)],
      ObjectTemplate 0]"

text \<open>
  A \<^verbatim>\<open>_template_size\<close> an implementation may have: a base type of fixed width, eight
  bytes, whatever size was passed among the arguments.
\<close>

definition eight_bytes_wide :: "object_class \<Rightarrow> heap \<Rightarrow> addr \<Rightarrow> error + int" where
  "eight_bytes_wide cls h template = Inr 8"


section \<open>Properties of the scan iterator\<close>

lemma scan_vad_stop:
  "\<not> end - start > chunk_size scanner + overlap scanner \<Longrightarrow>
   scan_vad layer_name scanner start end = Some [last_chunk layer_name start end]"
  by (subst scan_vad.simps) (simp add: last_chunk_def)

lemma scan_vad_step:
  "end - start > chunk_size scanner + overlap scanner \<Longrightarrow>
   scan_vad layer_name scanner start end =
     Option.bind (scan_vad layer_name scanner (start + chunk_size scanner) end)
       (\<lambda>rest. Some (full_chunk layer_name scanner start # rest))"
  by (subst scan_vad.simps) (simp add: full_chunk_def)

lemma div_small_nonpos:
  fixes x C :: int
  assumes "0 < C" "x < C"
  shows "x div C \<le> 0"
  by (metis assms(1,2) linorder_le_cases pos_imp_zdiv_nonneg_iff zdiv_eq_0_iff)

lemma div_shift:
  fixes x C :: int
  assumes "0 < C"
  shows "(x - C) div C = x div C - 1"
proof -
  have "x div C = ((x - C) + C) div C" by simp
  also have "\<dots> = (x - C) div C + 1"
    using assms by (subst div_add_self2) simp_all
  finally show ?thesis by simp
qed

lemma div_ge_one:
  fixes x C :: int
  assumes "0 < C" "C \<le> x"
  shows "1 \<le> x div C"
  by (simp add: assms(1,2) int_one_le_iff_zero_less pos_imp_zdiv_pos_iff)

lemma full_count_zero:
  assumes "0 < chunk_size scanner"
    and "\<not> end - start > chunk_size scanner + overlap scanner"
  shows "full_count scanner start end = 0"
proof -
  have "end - start - overlap scanner - 1 < chunk_size scanner" using assms by simp
  then have "(end - start - overlap scanner - 1) div chunk_size scanner \<le> 0"
    using assms(1) by (rule div_small_nonpos[rotated])
  then show ?thesis by (simp add: full_count_def)
qed

lemma full_count_Suc:
  assumes "0 < chunk_size scanner"
    and "end - start > chunk_size scanner + overlap scanner"
  shows "full_count scanner start end =
         Suc (full_count scanner (start + chunk_size scanner) end)"
proof -
  let ?C = "chunk_size scanner"
  let ?x = "end - start - overlap scanner - 1"
  have ge: "?C \<le> ?x" using assms by simp
  have one: "1 \<le> ?x div ?C" using assms(1) ge by (rule div_ge_one)
  have shift: "(?x - ?C) div ?C = ?x div ?C - 1"
    using assms(1) by (rule div_shift)
  have eq: "end - (start + ?C) - overlap scanner - 1 = ?x - ?C" by simp
  have "full_count scanner (start + ?C) end = nat (?x div ?C - 1)"
    by (simp only: full_count_def eq shift)
  moreover have "full_count scanner start end = nat (?x div ?C)"
    by (simp only: full_count_def)
  ultimately show ?thesis using one by linarith
qed

lemma chunk_list_stop:
  assumes "full_count scanner start end = 0"
  shows "chunk_list layer_name scanner start end = [last_chunk layer_name start end]"
  using assms by (simp add: chunk_list_def)

lemma chunk_list_step:
  assumes "full_count scanner start end =
           Suc (full_count scanner (start + chunk_size scanner) end)"
  shows "chunk_list layer_name scanner start end =
         full_chunk layer_name scanner start
           # chunk_list layer_name scanner (start + chunk_size scanner) end"
proof -
  let ?k = "full_count scanner (start + chunk_size scanner) end"
  have "map (\<lambda>i. full_chunk layer_name scanner (start + int i * chunk_size scanner)) [0..<Suc ?k]
        = full_chunk layer_name scanner start
          # map (\<lambda>i. full_chunk layer_name scanner
                       (start + chunk_size scanner + int i * chunk_size scanner)) [0..<?k]"
    by (simp only: upt_conv_Cons[of 0 "Suc ?k"] map_Suc_upt[symmetric] list.map map_map o_def)
       (simp add: algebra_simps)
  then show ?thesis
    unfolding chunk_list_def assms by (simp add: algebra_simps)
qed

lemma scan_vad_chunk_list:
  assumes "0 < chunk_size scanner"
  shows "scan_vad layer_name scanner start end = Some (chunk_list layer_name scanner start end)"
proof (induction "full_count scanner start end" arbitrary: start)
  case 0
  have stop: "\<not> end - start > chunk_size scanner + overlap scanner"
  proof
    assume "end - start > chunk_size scanner + overlap scanner"
    from full_count_Suc[OF assms this] 0 show False by simp
  qed
  show ?case
    using scan_vad_stop[OF stop] chunk_list_stop[OF 0[symmetric]] by simp
next
  case (Suc k)
  have go: "end - start > chunk_size scanner + overlap scanner"
  proof (rule ccontr)
    assume "\<not> end - start > chunk_size scanner + overlap scanner"
    from full_count_zero[OF assms this] Suc(2) show False by simp
  qed
  have cnt: "full_count scanner start end =
             Suc (full_count scanner (start + chunk_size scanner) end)"
    using assms go by (rule full_count_Suc)
  with Suc(2) have "k = full_count scanner (start + chunk_size scanner) end" by simp
  then have "scan_vad layer_name scanner (start + chunk_size scanner) end =
             Some (chunk_list layer_name scanner (start + chunk_size scanner) end)"
    by (rule Suc(1))
  then show ?case
    using scan_vad_step[OF go] chunk_list_step[OF cnt] by simp
qed


lemma chunk_list_induct [consumes 1, case_names stop step]:
  assumes pos: "0 < chunk_size scanner"
    and stop: "\<And>start. \<not> end - start > chunk_size scanner + overlap scanner \<Longrightarrow>
                 chunk_list layer_name scanner start end = [last_chunk layer_name start end] \<Longrightarrow>
                 P start"
    and step: "\<And>start. end - start > chunk_size scanner + overlap scanner \<Longrightarrow>
                 chunk_list layer_name scanner start end =
                   full_chunk layer_name scanner start
                     # chunk_list layer_name scanner (start + chunk_size scanner) end \<Longrightarrow>
                 P (start + chunk_size scanner) \<Longrightarrow> P start"
  shows "P start"
proof (induction "full_count scanner start end" arbitrary: start)
  case 0
  have no: "\<not> end - start > chunk_size scanner + overlap scanner"
  proof
    assume "end - start > chunk_size scanner + overlap scanner"
    from full_count_Suc[OF pos this] 0 show False by simp
  qed
  then show ?case
    using chunk_list_stop[OF 0[symmetric]] by (rule stop)
next
  case (Suc k)
  have go: "end - start > chunk_size scanner + overlap scanner"
  proof (rule ccontr)
    assume "\<not> end - start > chunk_size scanner + overlap scanner"
    from full_count_zero[OF pos this] Suc(2) show False by simp
  qed
  have cnt: "full_count scanner start end =
             Suc (full_count scanner (start + chunk_size scanner) end)"
    using pos go by (rule full_count_Suc)
  with Suc(2) have "k = full_count scanner (start + chunk_size scanner) end" by simp
  then have "P (start + chunk_size scanner)" by (rule Suc(1))
  with go chunk_list_step[OF cnt] show ?case by (rule step)
qed

lemma chunk_range_full [simp]:
  "chunk_range (full_chunk layer_name scanner start) =
     {start ..< start + (chunk_size scanner + overlap scanner)}"
  by (simp add: full_chunk_def)

lemma chunk_range_last [simp]:
  "chunk_range (last_chunk layer_name start end) = {start ..< end}"
  by (simp add: last_chunk_def)

lemma chunk_start_full [simp]: "chunk_start (full_chunk layer_name scanner start) = start"
  by (simp add: full_chunk_def)

lemma chunk_start_last [simp]: "chunk_start (last_chunk layer_name start end) = start"
  by (simp add: last_chunk_def)

lemma chunk_length_full [simp]:
  "chunk_length (full_chunk layer_name scanner start) = chunk_size scanner + overlap scanner"
  by (simp add: full_chunk_def)

lemma chunk_length_last [simp]: "chunk_length (last_chunk layer_name start end) = end - start"
  by (simp add: last_chunk_def)

lemma chunk_list_length:
  "length (chunk_list layer_name scanner start end) = Suc (full_count scanner start end)"
  by (simp add: chunk_list_def)

lemma ceiling_div_pos:
  fixes a C :: int
  assumes "0 < C"
  shows "\<lceil>real_of_int a / real_of_int C\<rceil> = (a - 1) div C + 1"
proof -
  let ?q = "(a - 1) div C" and ?r = "(a - 1) mod C"
  have r: "0 \<le> ?r" "?r < C" using assms by simp_all
  have "a - 1 = C * ?q + ?r" by simp
  then have "- a = C * (- (?q + 1)) + (C - ?r - 1)" by (simp add: algebra_simps)
  moreover have "0 \<le> C - ?r - 1" "C - ?r - 1 < C" using r by simp_all
  ultimately have "(- a) div C = - (?q + 1)" by (rule int_div_pos_eq)
  then show ?thesis by (simp add: ceiling_divide_eq_div)
qed

lemma chunk_list_count:
  assumes "0 < chunk_size scanner" "0 \<le> overlap scanner"
  shows "length (chunk_list layer_name scanner start end) =
           (if end - start > chunk_size scanner + overlap scanner
            then nat \<lceil>real_of_int (max (end - start - overlap scanner) 0)
                        / real_of_int (chunk_size scanner)\<rceil>
            else 1)"
proof (cases "end - start > chunk_size scanner + overlap scanner")
  case True
  let ?x = "end - start - overlap scanner - 1"
  have "chunk_size scanner \<le> ?x" using True by simp
  with assms(1) have "1 \<le> ?x div chunk_size scanner" by (rule div_ge_one)
  moreover have "max (end - start - overlap scanner) 0 = end - start - overlap scanner"
    using True assms by simp
  moreover have "\<lceil>real_of_int (end - start - overlap scanner)
                    / real_of_int (chunk_size scanner)\<rceil> = ?x div chunk_size scanner + 1"
    using assms(1) by (rule ceiling_div_pos)
  ultimately have "nat \<lceil>real_of_int (max (end - start - overlap scanner) 0)
                        / real_of_int (chunk_size scanner)\<rceil>
                   = Suc (nat (?x div chunk_size scanner))"
    by simp
  then show ?thesis
    using True by (simp only: chunk_list_length full_count_def if_True)
next
  case False
  then show ?thesis
    by (simp add: chunk_list_length full_count_zero[OF assms(1) False])
qed

lemma chunk_list_cover:
  assumes "0 < chunk_size scanner" "0 \<le> overlap scanner"
  shows "(\<Union>c \<in> set (chunk_list layer_name scanner start end). chunk_range c) = {start ..< end}"
  using assms(1)
proof (induction start rule: chunk_list_induct[of scanner "end" layer_name])
  case (stop start)
  then show ?case by simp
next
  case (step start)
  have "{start ..< start + (chunk_size scanner + overlap scanner)}
          \<union> {start + chunk_size scanner ..< end} = {start ..< end}"
    using assms step(1) by auto
  with step show ?case by simp
qed

lemma chunk_list_head:
  assumes "0 < chunk_size scanner"
  shows "chunk_list layer_name scanner start end =
           (if end - start > chunk_size scanner + overlap scanner
            then full_chunk layer_name scanner start
            else last_chunk layer_name start end)
           # tl (chunk_list layer_name scanner start end)"
  using assms
  by (induction start rule: chunk_list_induct[of scanner "end" layer_name])
     simp_all

lemma chunk_list_consecutive:
  assumes "0 < chunk_size scanner" "0 \<le> overlap scanner"
    and "Suc i < length (chunk_list layer_name scanner start end)"
  shows "chunk_length (chunk_list layer_name scanner start end ! i)
           = chunk_size scanner + overlap scanner
       \<and> chunk_start (chunk_list layer_name scanner start end ! Suc i)
           = chunk_start (chunk_list layer_name scanner start end ! i) + chunk_size scanner
       \<and> chunk_range (chunk_list layer_name scanner start end ! i)
           \<inter> chunk_range (chunk_list layer_name scanner start end ! Suc i)
           = {chunk_start (chunk_list layer_name scanner start end ! Suc i) ..<
              chunk_start (chunk_list layer_name scanner start end ! Suc i) + overlap scanner}"
  using assms(1,3)
proof (induction start arbitrary: i
        rule: chunk_list_induct[of scanner "end" layer_name])
  case (stop start)
  then show ?case by simp
next
  case (step start)
  let ?next = "start + chunk_size scanner"
  show ?case
  proof (cases i)
    case 0
    have hd: "chunk_list layer_name scanner ?next end ! 0 =
              (if end - ?next > chunk_size scanner + overlap scanner
               then full_chunk layer_name scanner ?next
               else last_chunk layer_name ?next end)"
      by (subst chunk_list_head[OF assms(1)]) simp
    show ?thesis
      using step(1) assms(1,2) unfolding step(2) 0 by (auto simp: hd)
  next
    case (Suc j)
    with step(4) have "Suc j < length (chunk_list layer_name scanner ?next end)"
      unfolding step(2) by simp
    then show ?thesis
      using step(3)[of j] unfolding step(2) Suc by simp
  qed
qed


lemma scan_vad_head:
  assumes "0 < chunk_size scanner"
    and "end - start > chunk_size scanner + overlap scanner"
  shows "\<exists>rest. scan_vad layer_name scanner (start + chunk_size scanner) end = Some rest \<and>
           scan_vad layer_name scanner start end =
             Some (([(layer_name, start, chunk_size scanner + overlap scanner)],
                    start + chunk_size scanner + overlap scanner) # rest)"
  using scan_vad_step[OF assms(2), of layer_name]
        scan_vad_chunk_list[OF assms(1), of layer_name "start + chunk_size scanner" "end"]
  by (simp add: full_chunk_def)

lemma full_count_le:
  assumes "0 < chunk_size scanner" "0 \<le> overlap scanner" "start \<le> end"
  shows "full_count scanner start end \<le> nat (end - start)"
proof (cases "0 \<le> end - start - overlap scanner - 1")
  case True
  then have "(end - start - overlap scanner - 1) div chunk_size scanner
               \<le> end - start - overlap scanner - 1"
    using zdiv_mono2[of "end - start - overlap scanner - 1" 1 "chunk_size scanner"] assms(1)
    by simp
  then show ?thesis using assms(2) by (simp add: full_count_def)
next
  case False
  then have "(end - start - overlap scanner - 1) div chunk_size scanner \<le> 0"
    using assms(1) by (intro div_small_nonpos) simp_all
  then show ?thesis by (simp add: full_count_def)
qed

lemma scan_iterator_total:
  assumes "0 < chunk_size scanner"
  shows "\<exists>out. scan_iterator layer_name vads scanner min_address max_address = Some out"
proof (induction vads)
  case Nil
  show ?case by simp
next
  case (Cons v vads)
  then show ?case
    using scan_vad_chunk_list[OF assms, of layer_name "get_start v" "get_end v"] by auto
qed

lemma scan_iterator_concat:
  assumes "scan_iterator layer_name vads1 scanner min_address max_address = Some out1"
    and "scan_iterator layer_name vads2 scanner min_address max_address = Some out2"
  shows "scan_iterator layer_name (vads1 @ vads2) scanner min_address max_address
           = Some (out1 @ out2)"
  using assms
proof (induction vads1 arbitrary: out1)
  case Nil
  then show ?case by simp
next
  case (Cons v vads1)
  then show ?case by (auto split: Option.bind_splits)
qed

lemma scan_iterator_single:
  "scan_iterator layer_name [v] scanner min_address max_address
     = scan_vad layer_name scanner (get_start v) (get_end v)"
  by (cases "scan_vad layer_name scanner (get_start v) (get_end v)") simp_all

lemma scan_iterator_Cons:
  assumes "scan_iterator layer_name [v] scanner min_address max_address = Some chunks"
    and "scan_iterator layer_name vads scanner min_address max_address = Some out"
  shows "scan_iterator layer_name (v # vads) scanner min_address max_address
           = Some (chunks @ out)"
  using assms by (simp add: scan_iterator_single del: scan_iterator.simps(2))
     (simp add: scan_iterator.simps(2))

subsection \<open>The boundary law\<close>

text \<open>
  Claim C1.  For a scanner with \<open>0 \<le> overlap < chunk_size\<close> and any region
  \<open>[start, end)\<close> of length \<open>L = end - start\<close>, the scan iterator run on that region
  returns a list of chunks such that: while \<open>L > chunk_size + overlap\<close> the first chunk is
  the full chunk \<open>[start, start + chunk_size + overlap)\<close> and the rest is what the iterator
  yields for the region that begins \<open>chunk_size\<close> later; otherwise the only chunk is
  \<open>[start, end)\<close>; the number of chunks is \<open>\<lceil>max (L - overlap) 0 / chunk_size\<rceil>\<close> when
  \<open>L > chunk_size + overlap\<close> and \<open>1\<close> otherwise; the union of the chunk ranges is exactly
  \<open>[start, end)\<close>; and any two consecutive chunks start \<open>chunk_size\<close> apart and share
  exactly the \<open>overlap\<close> bytes at the start of the later one.  In a longer traversal these
  chunks come first, followed by those of the remaining regions.
\<close>

theorem scan_iterator_boundary_law:
  assumes "0 \<le> overlap scanner" and "overlap scanner < chunk_size scanner"
  shows "\<exists>chunks.
      scan_iterator layer_name [\<lparr>get_start = start, get_end = end\<rparr>] scanner
        min_address max_address = Some chunks
    \<and> (end - start > chunk_size scanner + overlap scanner \<longrightarrow>
         (\<exists>rest. scan_iterator layer_name
                    [\<lparr>get_start = start + chunk_size scanner, get_end = end\<rparr>] scanner
                    min_address max_address = Some rest
            \<and> chunks = ([(layer_name, start, chunk_size scanner + overlap scanner)],
                         start + chunk_size scanner + overlap scanner) # rest))
    \<and> (\<not> end - start > chunk_size scanner + overlap scanner \<longrightarrow>
         chunks = [([(layer_name, start, end - start)], end)])
    \<and> length chunks =
         (if end - start > chunk_size scanner + overlap scanner
          then nat \<lceil>real_of_int (max (end - start - overlap scanner) 0)
                      / real_of_int (chunk_size scanner)\<rceil>
          else 1)
    \<and> (\<Union>c \<in> set chunks. chunk_range c) = {start ..< end}
    \<and> (\<forall>i. Suc i < length chunks \<longrightarrow>
           chunk_length (chunks ! i) = chunk_size scanner + overlap scanner
         \<and> chunk_start (chunks ! Suc i) = chunk_start (chunks ! i) + chunk_size scanner
         \<and> chunk_range (chunks ! i) \<inter> chunk_range (chunks ! Suc i)
             = {chunk_start (chunks ! Suc i) ..< chunk_start (chunks ! Suc i) + overlap scanner}
         \<and> card (chunk_range (chunks ! i) \<inter> chunk_range (chunks ! Suc i))
             = nat (overlap scanner))
    \<and> (\<forall>vads out.
           scan_iterator layer_name vads scanner min_address max_address = Some out \<longrightarrow>
           scan_iterator layer_name (\<lparr>get_start = start, get_end = end\<rparr> # vads) scanner
             min_address max_address = Some (chunks @ out))"
proof -
  let ?cl = "chunk_list layer_name scanner start end"
  let ?v = "\<lparr>get_start = start, get_end = end\<rparr>"
  have pos: "0 < chunk_size scanner" using assms by simp
  have run: "scan_vad layer_name scanner start end = Some ?cl"
    using pos by (rule scan_vad_chunk_list)
  have it: "scan_iterator layer_name [?v] scanner min_address max_address = Some ?cl"
    using run by (simp only: scan_iterator_single vad.simps)
  have first: "end - start > chunk_size scanner + overlap scanner \<longrightarrow>
         (\<exists>rest. scan_iterator layer_name
                    [\<lparr>get_start = start + chunk_size scanner, get_end = end\<rparr>] scanner
                    min_address max_address = Some rest
            \<and> ?cl = ([(layer_name, start, chunk_size scanner + overlap scanner)],
                      start + chunk_size scanner + overlap scanner) # rest)"
    using scan_vad_head[OF pos, of "end" start layer_name] run
    by (auto simp only: scan_iterator_single vad.simps)
  have only: "\<not> end - start > chunk_size scanner + overlap scanner \<longrightarrow>
         ?cl = [([(layer_name, start, end - start)], end)]"
    using scan_vad_stop[of scanner "end" start layer_name] run by (auto simp: last_chunk_def)
  have count: "length ?cl =
         (if end - start > chunk_size scanner + overlap scanner
          then nat \<lceil>real_of_int (max (end - start - overlap scanner) 0)
                      / real_of_int (chunk_size scanner)\<rceil>
          else 1)"
    using pos assms(1) by (rule chunk_list_count)
  have cover: "(\<Union>c \<in> set ?cl. chunk_range c) = {start ..< end}"
    using pos assms(1) by (rule chunk_list_cover)
  have consec: "\<forall>i. Suc i < length ?cl \<longrightarrow>
           chunk_length (?cl ! i) = chunk_size scanner + overlap scanner
         \<and> chunk_start (?cl ! Suc i) = chunk_start (?cl ! i) + chunk_size scanner
         \<and> chunk_range (?cl ! i) \<inter> chunk_range (?cl ! Suc i)
             = {chunk_start (?cl ! Suc i) ..< chunk_start (?cl ! Suc i) + overlap scanner}
         \<and> card (chunk_range (?cl ! i) \<inter> chunk_range (?cl ! Suc i))
             = nat (overlap scanner)"
  proof (intro allI impI)
    fix i
    assume i: "Suc i < length ?cl"
    note c = chunk_list_consecutive[OF pos assms(1) i]
    from c have "card (chunk_range (?cl ! i) \<inter> chunk_range (?cl ! Suc i)) = nat (overlap scanner)"
      by simp
    with c show "chunk_length (?cl ! i) = chunk_size scanner + overlap scanner
         \<and> chunk_start (?cl ! Suc i) = chunk_start (?cl ! i) + chunk_size scanner
         \<and> chunk_range (?cl ! i) \<inter> chunk_range (?cl ! Suc i)
             = {chunk_start (?cl ! Suc i) ..< chunk_start (?cl ! Suc i) + overlap scanner}
         \<and> card (chunk_range (?cl ! i) \<inter> chunk_range (?cl ! Suc i))
             = nat (overlap scanner)"
      by simp
  qed
  have more: "\<forall>vads out.
           scan_iterator layer_name vads scanner min_address max_address = Some out \<longrightarrow>
           scan_iterator layer_name (?v # vads) scanner min_address max_address
             = Some (?cl @ out)"
    using scan_iterator_Cons[OF it] by blast
  from it first only count cover consec more show ?thesis by blast
qed

theorem scan_iterator_boundary_law_witness:
  "(0::int) \<le> 50 \<and> (50::int) < 400 \<and> (1000::int) - 0 > 400 + 50 \<and>
   (\<exists>chunks. scan_iterator ''primary'' [\<lparr>get_start = 0, get_end = 1000\<rparr>]
                \<lparr>chunk_size = 400, overlap = 50\<rparr> 0 4096 = Some chunks
      \<and> (\<exists>rest. chunks = ([(''primary'', 0, 450)], 450) # rest)
      \<and> length chunks = 3
      \<and> (\<Union>c \<in> set chunks. chunk_range c) = {0 ..< 1000}
      \<and> chunk_start (chunks ! 1) = chunk_start (chunks ! 0) + 400
      \<and> card (chunk_range (chunks ! 0) \<inter> chunk_range (chunks ! 1)) = 50
      \<and> scan_iterator ''primary'' [\<lparr>get_start = 0, get_end = 1000\<rparr>, \<lparr>get_start = 0, get_end = 300\<rparr>]
                \<lparr>chunk_size = 400, overlap = 50\<rparr> 0 4096
          = Some (chunks @ [([(''primary'', 0, 300)], 300)]))"
proof -
  have other: "scan_iterator ''primary'' [\<lparr>get_start = 0, get_end = 300\<rparr>]
                 \<lparr>chunk_size = 400, overlap = 50\<rparr> 0 4096 = Some [([(''primary'', 0, 300)], 300)]"
    by (simp add: scan_vad_stop last_chunk_def)
  from scan_iterator_boundary_law[of "\<lparr>chunk_size = 400, overlap = 50\<rparr>" "''primary''" 0 1000
         0 4096]
  obtain chunks where
    run: "scan_iterator ''primary'' [\<lparr>get_start = 0, get_end = 1000\<rparr>]
            \<lparr>chunk_size = 400, overlap = 50\<rparr> 0 4096 = Some chunks"
    and hd: "\<exists>rest. chunks = ([(''primary'', 0, 450)], 450) # rest"
    and len: "length chunks = 3"
    and cov: "(\<Union>c \<in> set chunks. chunk_range c) = {0 ..< 1000}"
    and con: "\<forall>i. Suc i < length chunks \<longrightarrow>
           chunk_length (chunks ! i) = 400 + 50
         \<and> chunk_start (chunks ! Suc i) = chunk_start (chunks ! i) + 400
         \<and> chunk_range (chunks ! i) \<inter> chunk_range (chunks ! Suc i)
             = {chunk_start (chunks ! Suc i) ..< chunk_start (chunks ! Suc i) + 50}
         \<and> card (chunk_range (chunks ! i) \<inter> chunk_range (chunks ! Suc i)) = nat 50"
    and more: "\<forall>vads out.
           scan_iterator ''primary'' vads \<lparr>chunk_size = 400, overlap = 50\<rparr> 0 4096 = Some out \<longrightarrow>
           scan_iterator ''primary'' (\<lparr>get_start = 0, get_end = 1000\<rparr> # vads)
             \<lparr>chunk_size = 400, overlap = 50\<rparr> 0 4096 = Some (chunks @ out)"
    by auto
  from con len have "chunk_start (chunks ! 1) = chunk_start (chunks ! 0) + 400
      \<and> card (chunk_range (chunks ! 0) \<inter> chunk_range (chunks ! 1)) = 50"
    by (auto dest!: spec[of _ 0])
  moreover from more other have
    "scan_iterator ''primary'' [\<lparr>get_start = 0, get_end = 1000\<rparr>, \<lparr>get_start = 0, get_end = 300\<rparr>]
                \<lparr>chunk_size = 400, overlap = 50\<rparr> 0 4096
          = Some (chunks @ [([(''primary'', 0, 300)], 300)])"
    by blast
  ultimately show ?thesis using run hd len cov by auto
qed

subsection \<open>Concrete scenarios\<close>

text \<open>
  Claim C6.  Region \<open>[0, 1000)\<close> with chunk size 400 and overlap 50 yields the chunks
  \<open>[0,450)\<close>, \<open>[400,850)\<close>, \<open>[800,1000)\<close> in that order; region \<open>[0, 300)\<close> with the same
  scanner yields the single chunk \<open>[0,300)\<close>; the regions \<open>[0,100)\<close> and \<open>[5000,5010)\<close>
  with chunk size 1000 and overlap 10 yield one chunk each, in generator order, and each
  region's chunk is the one it yields when scanned alone.
\<close>

theorem scan_iterator_scenarios:
  "scan_iterator layer_name [\<lparr>get_start = 0, get_end = 1000\<rparr>]
       \<lparr>chunk_size = 400, overlap = 50\<rparr> min_address max_address
     = Some [([(layer_name, 0, 450)], 450),
             ([(layer_name, 400, 450)], 850),
             ([(layer_name, 800, 200)], 1000)]
   \<and> scan_iterator layer_name [\<lparr>get_start = 0, get_end = 300\<rparr>]
       \<lparr>chunk_size = 400, overlap = 50\<rparr> min_address max_address
     = Some [([(layer_name, 0, 300)], 300)]
   \<and> scan_iterator layer_name
       [\<lparr>get_start = 0, get_end = 100\<rparr>, \<lparr>get_start = 5000, get_end = 5010\<rparr>]
       \<lparr>chunk_size = 1000, overlap = 10\<rparr> min_address max_address
     = Some [([(layer_name, 0, 100)], 100), ([(layer_name, 5000, 10)], 5010)]
   \<and> scan_iterator layer_name [\<lparr>get_start = 0, get_end = 100\<rparr>]
       \<lparr>chunk_size = 1000, overlap = 10\<rparr> min_address max_address
     = Some [([(layer_name, 0, 100)], 100)]
   \<and> scan_iterator layer_name [\<lparr>get_start = 5000, get_end = 5010\<rparr>]
       \<lparr>chunk_size = 1000, overlap = 10\<rparr> min_address max_address
     = Some [([(layer_name, 5000, 10)], 5010)]
   \<and> scan_iterator layer_name
       [\<lparr>get_start = 5000, get_end = 5010\<rparr>, \<lparr>get_start = 0, get_end = 100\<rparr>]
       \<lparr>chunk_size = 1000, overlap = 10\<rparr> min_address max_address
     = Some [([(layer_name, 5000, 10)], 5010), ([(layer_name, 0, 100)], 100)]"
  by (simp add: scan_vad_step scan_vad_stop full_chunk_def last_chunk_def)

subsection \<open>Termination of the per-region loop\<close>

text \<open>
  Claim C8.  When \<open>0 \<le> overlap < chunk_size\<close>, the loop over a region with
  \<open>start \<le> end\<close> returns, and it yields at most \<open>end - start + 1\<close> chunks; hence the
  iterator over any finite list of such regions returns too.
\<close>

theorem scan_vad_terminates:
  assumes "0 \<le> overlap scanner" and "overlap scanner < chunk_size scanner"
    and "\<forall>v \<in> set vads. get_start v \<le> get_end v"
  shows "(\<forall>v \<in> set vads. \<exists>chunks.
            scan_vad layer_name scanner (get_start v) (get_end v) = Some chunks
          \<and> length chunks \<le> nat (get_end v - get_start v) + 1)
       \<and> (\<exists>out. scan_iterator layer_name vads scanner min_address max_address = Some out)"
proof -
  have pos: "0 < chunk_size scanner" using assms by simp
  have "\<exists>chunks. scan_vad layer_name scanner (get_start v) (get_end v) = Some chunks
          \<and> length chunks \<le> nat (get_end v - get_start v) + 1" if "v \<in> set vads" for v
  proof -
    from that assms(3) have le: "get_start v \<le> get_end v" by blast
    show ?thesis
      using scan_vad_chunk_list[OF pos, of layer_name "get_start v" "get_end v"]
            full_count_le[OF pos assms(1) le]
      by (simp add: chunk_list_length)
  qed
  moreover have "\<exists>out. scan_iterator layer_name vads scanner min_address max_address = Some out"
    using pos by (rule scan_iterator_total)
  ultimately show ?thesis by blast
qed

theorem scan_vad_terminates_witness:
  "(0::int) \<le> 50 \<and> (50::int) < 400 \<and> (0::int) \<le> 1000 \<and> (1000::int) - 0 > 400 + 50 \<and>
   (\<exists>chunks. scan_vad ''primary'' \<lparr>chunk_size = 400, overlap = 50\<rparr> 0 1000 = Some chunks
      \<and> length chunks \<le> 1001) \<and>
   (\<exists>out. scan_iterator ''primary'' [\<lparr>get_start = 0, get_end = 1000\<rparr>]
             \<lparr>chunk_size = 400, overlap = 50\<rparr> 0 4096 = Some out)"
  using scan_vad_terminates[of "\<lparr>chunk_size = 400, overlap = 50\<rparr>"
          "[\<lparr>get_start = 0, get_end = 1000\<rparr>]" "''primary''" 0 4096]
  by simp

section \<open>The yara rule built by the plugin\<close>

lemma case_not_declared: "''case'' \<notin> set (map req_name get_requirements)"
  by (simp add: get_requirements_def)

lemma insensitive_declared: "''insensitive'' \<in> set (map req_name get_requirements)"
  by (simp add: get_requirements_def)

lemma build_rules_drop_insensitive:
  "build_rules (cfg(''insensitive'' := a)) = build_rules cfg"
proof -
  have l: "(cfg(''insensitive'' := a)) ''yara_rules'' = cfg ''yara_rules''"
    "(cfg(''insensitive'' := a)) ''yara_file'' = cfg ''yara_file''"
    by simp_all
  have g: "config_get (cfg(''insensitive'' := a)) ''yara_rules'' = config_get cfg ''yara_rules''"
    "config_get (cfg(''insensitive'' := a)) ''yara_file'' = config_get cfg ''yara_file''"
    "config_get (cfg(''insensitive'' := a)) ''case'' = config_get cfg ''case''"
    "config_get (cfg(''insensitive'' := a)) ''wide'' = config_get cfg ''wide''"
    by (simp_all add: config_get_def fun_eq_iff)
  show ?thesis unfolding build_rules_def l g ..
qed

lemma build_rules_ignores_insensitive:
  "build_rules (cfg(''insensitive'' := a)) = build_rules (cfg(''insensitive'' := b))"
  by (simp only: build_rules_drop_insensitive)

lemma build_rules_no_case:
  assumes "cfg ''case'' = None" and "cfg ''yara_rules'' = Some (CStr (c # rule))"
  shows "build_rules cfg =
     Inr (CompileSources
       (''rule r1 {strings: $a = ''
          @ (if c \<in> {CHR ''{'', CHR ''/''} then c # rule else [CHR 0x22] @ (c # rule) @ [CHR 0x22])
          @ (if truthy (config_get cfg ''wide'' (CBool False)) then '' wide ascii'' else [])
          @ '' condition: $a}''))"
  using assms by (simp add: build_rules_def config_get_def Let_def)

text \<open>
  Claim C10.  The option \<^verbatim>\<open>insensitive\<close> is declared but never read; the rule-building
  code reads \<^verbatim>\<open>case\<close>, which is not declared.  For a configuration holding declared
  options only, two runs that differ in the value of \<^verbatim>\<open>insensitive\<close> alone compile the
  same rule source, and that source is the rule, quoted unless it starts with a brace or a
  slash, followed by the wide modifier if asked for: no \<^verbatim>\<open>nocase\<close> is appended.
\<close>

theorem insensitive_has_no_effect:
  assumes "dom cfg \<subseteq> set (map req_name get_requirements)"
  shows "''insensitive'' \<in> set (map req_name get_requirements)
     \<and> ''case'' \<notin> set (map req_name get_requirements)
     \<and> build_rules (cfg(''insensitive'' := a)) = build_rules (cfg(''insensitive'' := b))
     \<and> (\<forall>c rule. cfg ''yara_rules'' = Some (CStr (c # rule)) \<longrightarrow>
          build_rules (cfg(''insensitive'' := a)) =
            Inr (CompileSources
              (''rule r1 {strings: $a = ''
                 @ (if c \<in> {CHR ''{'', CHR ''/''} then c # rule
                    else [CHR 0x22] @ (c # rule) @ [CHR 0x22])
                 @ (if truthy (config_get cfg ''wide'' (CBool False)) then '' wide ascii'' else [])
                 @ '' condition: $a}'')))"
proof -
  have "''case'' \<notin> dom cfg" using assms case_not_declared by blast
  then have nc: "cfg ''case'' = None" by auto
  have "\<forall>c rule. cfg ''yara_rules'' = Some (CStr (c # rule)) \<longrightarrow>
          build_rules (cfg(''insensitive'' := a)) =
            Inr (CompileSources
              (''rule r1 {strings: $a = ''
                 @ (if c \<in> {CHR ''{'', CHR ''/''} then c # rule
                    else [CHR 0x22] @ (c # rule) @ [CHR 0x22])
                 @ (if truthy (config_get cfg ''wide'' (CBool False)) then '' wide ascii'' else [])
                 @ '' condition: $a}''))"
    unfolding build_rules_drop_insensitive using build_rules_no_case[of cfg, OF nc] by blast
  then show ?thesis
    using case_not_declared insensitive_declared build_rules_ignores_insensitive by blast
qed

theorem insensitive_has_no_effect_witness:
  "dom [''yara_rules'' \<mapsto> CStr ''evil''] \<subseteq> set (map req_name get_requirements)
   \<and> build_rules ([''yara_rules'' \<mapsto> CStr ''evil''](''insensitive'' \<mapsto> CBool True))
       = build_rules ([''yara_rules'' \<mapsto> CStr ''evil''](''insensitive'' \<mapsto> CBool False))
   \<and> build_rules ([''yara_rules'' \<mapsto> CStr ''evil''](''insensitive'' \<mapsto> CBool True))
       = Inr (CompileSources
               (''rule r1 {strings: $a = '' @ [CHR 0x22] @ ''evil'' @ [CHR 0x22]
                  @ '' condition: $a}''))"
proof -
  let ?cfg = "[''yara_rules'' \<mapsto> CStr ''evil'']"
  have d: "dom ?cfg \<subseteq> set (map req_name get_requirements)"
    by (simp add: get_requirements_def)
  have y: "?cfg ''yara_rules'' = Some (CStr (CHR ''e'' # ''vil''))" by simp
  note law = insensitive_has_no_effect[OF d, of "Some (CBool True)" "Some (CBool False)"]
  from law have same:
    "build_rules (?cfg(''insensitive'' \<mapsto> CBool True))
       = build_rules (?cfg(''insensitive'' \<mapsto> CBool False))"
    by blast
  from law y have "build_rules (?cfg(''insensitive'' \<mapsto> CBool True)) =
            Inr (CompileSources
              (''rule r1 {strings: $a = ''
                 @ (if CHR ''e'' \<in> {CHR ''{'', CHR ''/''} then CHR ''e'' # ''vil''
                    else [CHR 0x22] @ (CHR ''e'' # ''vil'') @ [CHR 0x22])
                 @ (if truthy (config_get ?cfg ''wide'' (CBool False)) then '' wide ascii'' else [])
                 @ '' condition: $a}''))"
    by blast
  then have "build_rules (?cfg(''insensitive'' \<mapsto> CBool True))
       = Inr (CompileSources
               (''rule r1 {strings: $a = '' @ [CHR 0x22] @ ''evil'' @ [CHR 0x22]
                  @ '' condition: $a}''))"
    by (simp add: config_get_def)
  with d same show ?thesis by blast
qed

section \<open>Properties of templates\<close>

lemma fetch_append_old [simp]: "a < length h \<Longrightarrow> fetch (h @ xs) a = fetch h a"
  by (simp add: fetch_def nth_append)

lemma fetch_append_new [simp]: "fetch (h @ [x]) (length h) = Some x"
  by (simp add: fetch_def)

lemma fetch_update [simp]:
  "fetch (h[a := x]) b = (if b = a \<and> a < length h then Some x else fetch h b)"
  by (auto simp: fetch_def)

lemma fetch_Some_less: "fetch h a = Some x \<Longrightarrow> a < length h"
  by (simp add: fetch_def split: if_splits)

lemma update_fresh_key:
  "k \<notin> fst ` set al \<Longrightarrow> AList.update k v al = al @ [(k, v)]"
  by (induction al) auto

lemma dict_update_distinct:
  "distinct (map fst (acc @ other)) \<Longrightarrow>
   foldl (\<lambda>acc (k, v). AList.update k v acc) acc other = acc @ other"
proof (induction other arbitrary: acc)
  case Nil
  show ?case by simp
next
  case (Cons kv other)
  obtain k v where kv: "kv = (k, v)" by (cases kv)
  from Cons.prems kv have fresh: "k \<notin> fst ` set acc" by auto
  from Cons.prems kv have "distinct (map fst ((acc @ [(k, v)]) @ other))" by simp
  from Cons.IH[OF this] show ?case
    using fresh kv by (simp add: update_fresh_key)
qed

lemma dict_update_frame:
  "dict_update h a other = Inr h' \<Longrightarrow> \<exists>x. h' = h[a := x]"
  by (auto simp: dict_update_def split: option.splits pyobj.splits)

lemma dict_delitem_frame:
  "dict_delitem h a k = Inr h' \<Longrightarrow> \<exists>x. h' = h[a := x]"
  by (auto simp: dict_delitem_def split: option.splits pyobj.splits if_splits)

lemma ObjectTemplate_call_frame:
  "\<exists>xs. snd (ObjectTemplate_call h self ctx object_info) = h @ xs"
proof -
  have a: "\<exists>xs. (h @ [y])[length h := x] = h @ xs" for x y by simp
  have b: "\<exists>xs. ((h @ [y])[length h := x])[length h := z] = h @ xs" for x y z by simp
  show ?thesis
    unfolding ObjectTemplate_call_def alloc_def
    by (auto simp del: list_update_append list_update_length
             split: sum.splits pyval.splits if_splits
             dest!: dict_update_frame dict_delitem_frame
             intro: a b)
qed

lemma delete_keys_image:
  "fst ` set (AList.delete k al) = fst ` set al - {k}"
  by (auto simp: AList.delete_eq)

lemma ObjectTemplate_call_direct:
  assumes "fetch h self = Some (ObjectTemplate d)" and "fetch h d = Some (Dict vi)"
    and "distinct (map fst vi)" and "map_of vi ''object_class'' = Some (VClass cls)"
  shows "ObjectTemplate_call h self ctx object_info =
           (if ''context'' \<in> fst ` set vi \<or> ''object_info'' \<in> fst ` set vi
            then Inl TypeError
            else Inr \<lparr>obj_class = cls, obj_context = ctx, obj_info = object_info,
                      obj_arguments = AList.delete ''object_class'' vi\<rparr>,
            h @ [Dict (AList.delete ''object_class'' vi)])"
proof -
  have s: "self < length h" and d: "d < length h"
    using assms(1,2) by (auto dest: fetch_Some_less)
  have key: "''object_class'' \<in> fst ` set vi"
    using assms(4) by (metis domI dom_map_of_conv_image_fst)
  have copy: "foldl (\<lambda>acc (k, v). AList.update k v acc) [] vi = vi"
    using dict_update_distinct[of "[]" vi] assms(3) by simp
  show ?thesis
    using s d key assms(1,2,4)
    by (simp add: ObjectTemplate_call_def alloc_def volinfo_def dict_items_def dict_update_def
                  dict_delitem_def volinfo_attr_def copy delete_keys_image)
qed

lemma ObjectTemplate_call_ok:
  assumes "fetch h self = Some (ObjectTemplate d)" and "fetch h d = Some (Dict vi)"
    and "distinct (map fst vi)" and "map_of vi ''object_class'' = Some (VClass cls)"
    and "''context'' \<notin> fst ` set vi" and "''object_info'' \<notin> fst ` set vi"
  shows "ObjectTemplate_call h self ctx object_info =
           (Inr \<lparr>obj_class = cls, obj_context = ctx, obj_info = object_info,
                 obj_arguments = AList.delete ''object_class'' vi\<rparr>,
            h @ [Dict (AList.delete ''object_class'' vi)])"
  using ObjectTemplate_call_direct[OF assms(1-4)] assms(5,6) by simp

lemma ObjectTemplate_call_clash:
  assumes "fetch h self = Some (ObjectTemplate d)" and "fetch h d = Some (Dict vi)"
    and "distinct (map fst vi)" and "map_of vi ''object_class'' = Some (VClass cls)"
    and "''context'' \<in> fst ` set vi \<or> ''object_info'' \<in> fst ` set vi"
  shows "fst (ObjectTemplate_call h self ctx object_info) = Inl TypeError"
  using ObjectTemplate_call_direct[OF assms(1-4)] assms(5) by simp

lemma ObjectTemplate_call_heap:
  assumes "fetch h self = Some (ObjectTemplate d)" and "fetch h d = Some (Dict vi)"
    and "distinct (map fst vi)" and "map_of vi ''object_class'' = Some (VClass cls)"
  shows "snd (ObjectTemplate_call h self ctx object_info)
           = h @ [Dict (AList.delete ''object_class'' vi)]"
  using ObjectTemplate_call_direct[OF assms] by simp


lemma construct_many_frame:
  "\<exists>xs. construct_many h self calls = h @ xs"
proof (induction calls arbitrary: h)
  case Nil
  show ?case by simp
next
  case (Cons c calls)
  obtain ctx object_info where c: "c = (ctx, object_info)" by (cases c)
  obtain xs where 1: "snd (ObjectTemplate_call h self ctx object_info) = h @ xs"
    using ObjectTemplate_call_frame by blast
  obtain ys where "construct_many (h @ xs) self calls = (h @ xs) @ ys"
    using Cons.IH by blast
  with 1 c show ?case by simp
qed

lemma construct_many_fetch:
  assumes "fetch h a = Some x"
  shows "fetch (construct_many h self calls) a = Some x"
proof -
  obtain xs where "construct_many h self calls = h @ xs"
    using construct_many_frame by blast
  with assms show ?thesis by (simp add: fetch_Some_less)
qed

lemma ObjectTemplate_init_ok:
  assumes "is_object_interface c"
  shows "ObjectTemplate_init h (VClass c) structure_name arguments =
           (Inr (Suc (length h)),
            h @ [Dict (AList.update ''object_class'' (VClass c)
                        (AList.update ''structure_name'' structure_name arguments)),
                 ObjectTemplate (length h)])"
  using assms
  by (simp add: ObjectTemplate_init_def Template_init_def alloc_def class_check_def
                update_volinfo_def volinfo_def dict_update_def fetch_def nth_append)

lemma ObjectTemplate_init_fail:
  assumes "\<not> (\<exists>c. object_class = VClass c \<and> is_object_interface c)"
  shows "fst (ObjectTemplate_init h object_class structure_name arguments) = Inl ValidationError"
  using assms
  by (auto simp: ObjectTemplate_init_def Template_init_def alloc_def class_check_def
           split: pyval.splits)

lemma built_template:
  assumes "ObjectTemplate_init h object_class structure_name arguments = (Inr self, h')"
    and "distinct (map fst arguments)"
  shows "\<exists>d c vi. object_class = VClass c \<and> is_object_interface c
          \<and> fetch h' self = Some (ObjectTemplate d) \<and> fetch h' d = Some (Dict vi)
          \<and> distinct (map fst vi) \<and> map_of vi ''object_class'' = Some (VClass c)
          \<and> vi = AList.update ''object_class'' (VClass c)
                   (AList.update ''structure_name'' structure_name arguments)"
proof -
  have "\<exists>c. object_class = VClass c \<and> is_object_interface c"
  proof (rule ccontr)
    assume "\<not> (\<exists>c. object_class = VClass c \<and> is_object_interface c)"
    from ObjectTemplate_init_fail[OF this, of h structure_name arguments] assms(1)
    show False by simp
  qed
  then obtain c where c: "object_class = VClass c" "is_object_interface c" by blast
  let ?vi = "AList.update ''object_class'' (VClass c)
               (AList.update ''structure_name'' structure_name arguments)"
  from ObjectTemplate_init_ok[OF c(2), of h structure_name arguments] assms(1) c(1)
  have self: "self = Suc (length h)" and h': "h' = h @ [Dict ?vi, ObjectTemplate (length h)]"
    by simp_all
  have "fetch h' self = Some (ObjectTemplate (length h))"
    and "fetch h' (length h) = Some (Dict ?vi)"
    unfolding self h' by (simp_all add: fetch_def nth_append)
  moreover have "distinct (map fst ?vi)"
    using assms(2) by (simp add: distinct_update)
  moreover have "map_of ?vi ''object_class'' = Some (VClass c)"
    by (simp add: update_conv')
  ultimately show ?thesis using c by blast
qed

lemma built_template_keys:
  "fst ` set (AList.update ''object_class'' v
               (AList.update ''structure_name'' structure_name arguments))
     = fst ` set arguments \<union> {''structure_name'', ''object_class''}"
  by (simp only: dom_map_of_conv_image_fst[symmetric] update_conv' dom_fun_upd) auto




lemma ObjectTemplate_call_no_validation:
  "fst (ObjectTemplate_call h self ctx object_info) \<noteq> Inl ValidationError"
  unfolding ObjectTemplate_call_def alloc_def volinfo_def volinfo_attr_def dict_items_def
            dict_update_def dict_delitem_def
  by (auto split: sum.splits pyval.splits option.splits pyobj.splits if_splits)

subsection \<open>Deferred references\<close>



subsection \<open>Building and calling a direct template\<close>

text \<open>
  Claim C3.  Building a direct template with a missing object implementation, or with one
  that does not satisfy the Object capability contract, fails with a validation error.
  No call of a direct template, built or not, ever yields a validation error.  A template
  that was built without a parameter named \<^verbatim>\<open>context\<close> or \<^verbatim>\<open>object_info\<close>
  constructs an Object at every later call; built with such a parameter it fails at every
  later call with a type error, which is not a validation error.
\<close>

theorem class_check_only_at_build:
  "(\<not> (\<exists>c. object_class = VClass c \<and> is_object_interface c) \<longrightarrow>
      fst (ObjectTemplate_init h object_class structure_name arguments) = Inl ValidationError)
   \<and> (\<forall>self h'. ObjectTemplate_init h object_class structure_name arguments = (Inr self, h')
         \<and> distinct (map fst arguments) \<longrightarrow>
        (\<forall>calls.
           if ''context'' \<in> fst ` set arguments \<or> ''object_info'' \<in> fst ` set arguments
           then fst (ObjectTemplate_call (construct_many h' self calls) self ctx object_info)
                  = Inl TypeError
           else (\<exists>obj h''.
                   ObjectTemplate_call (construct_many h' self calls) self ctx object_info
                     = (Inr obj, h''))))
   \<and> fst (ObjectTemplate_call h0 self0 ctx object_info) \<noteq> Inl ValidationError"
proof (intro conjI allI impI)
  assume "\<not> (\<exists>c. object_class = VClass c \<and> is_object_interface c)"
  then show "fst (ObjectTemplate_init h object_class structure_name arguments)
               = Inl ValidationError"
    by (rule ObjectTemplate_init_fail)
next
  fix self h' calls
  assume a: "ObjectTemplate_init h object_class structure_name arguments = (Inr self, h')
         \<and> distinct (map fst arguments)"
  then obtain d c vi where b: "fetch h' self = Some (ObjectTemplate d)"
      "fetch h' d = Some (Dict vi)" "distinct (map fst vi)"
      "map_of vi ''object_class'' = Some (VClass c)"
      and vi: "vi = AList.update ''object_class'' (VClass c)
                   (AList.update ''structure_name'' structure_name arguments)"
    using built_template by blast
  have keys: "fst ` set vi = fst ` set arguments \<union> {''structure_name'', ''object_class''}"
    unfolding vi by (rule built_template_keys)
  let ?h = "construct_many h' self calls"
  have "fetch ?h self = Some (ObjectTemplate d)" "fetch ?h d = Some (Dict vi)"
    using b(1,2) by (simp_all add: construct_many_fetch)
  from ObjectTemplate_call_direct[OF this b(3,4), of ctx object_info]
  show "if ''context'' \<in> fst ` set arguments \<or> ''object_info'' \<in> fst ` set arguments
           then fst (ObjectTemplate_call ?h self ctx object_info) = Inl TypeError
           else (\<exists>obj h''. ObjectTemplate_call ?h self ctx object_info = (Inr obj, h''))"
    by (simp add: keys)
next
  show "fst (ObjectTemplate_call h0 self0 ctx object_info) \<noteq> Inl ValidationError"
    by (rule ObjectTemplate_call_no_validation)
qed

theorem class_check_only_at_build_witness:
  "fst (ObjectTemplate_init [] VNone (VStr ''nt!_ETHREAD'') [(''size'', VInt 8)])
     = Inl ValidationError
   \<and> fst (ObjectTemplate_init []
            (VClass \<lparr>class_name = ''dict'', is_object_interface = False, nested_layout = False,
              membership_first = False\<rparr>)
            (VStr ''nt!_ETHREAD'') [(''size'', VInt 8)])
     = Inl ValidationError
   \<and> (\<exists>self h'. ObjectTemplate_init [] (VClass Struct_class) (VStr ''nt!_ETHREAD'')
                    [(''size'', VInt 8)] = (Inr self, h')
        \<and> (\<exists>obj h''. ObjectTemplate_call h' self \<lparr>symbol_space = Map.empty\<rparr> (''primary'', 0)
                        = (Inr obj, h'')))
   \<and> ObjectTemplate_init [] (VClass Struct_class) (VStr ''nt!_ETHREAD'') [(''context'', VInt 5)]
       = (Inr 1, clash_heap)
   \<and> fst (ObjectTemplate_call clash_heap 1 \<lparr>symbol_space = Map.empty\<rparr> (''primary'', 0))
       = Inl TypeError"
proof -
  let ?ctx = "\<lparr>symbol_space = Map.empty\<rparr>"
  have 1: "\<not> (\<exists>c. VNone = VClass c \<and> is_object_interface c)" by simp
  have 2: "\<not> (\<exists>c. VClass \<lparr>class_name = ''dict'', is_object_interface = False,
                            nested_layout = False, membership_first = False\<rparr> = VClass c
               \<and> is_object_interface c)"
    by simp
  have 3: "ObjectTemplate_init [] (VClass Struct_class) (VStr ''nt!_ETHREAD'')
             [(''size'', VInt 8)]
           = (Inr 1, [Dict [(''size'', VInt 8), (''structure_name'', VStr ''nt!_ETHREAD''),
                            (''object_class'', VClass Struct_class)], ObjectTemplate 0])"
    by (simp add: ObjectTemplate_init_def Template_init_def alloc_def class_check_def
          Struct_class_def update_volinfo_def volinfo_def dict_update_def fetch_def)
  have 4: "distinct (map fst [(''size'', VInt 8)])" by simp
  have 5: "ObjectTemplate_init [] (VClass Struct_class) (VStr ''nt!_ETHREAD'')
             [(''context'', VInt 5)] = (Inr 1, clash_heap)"
    by (simp add: ObjectTemplate_init_def Template_init_def alloc_def class_check_def
          Struct_class_def update_volinfo_def volinfo_def dict_update_def fetch_def clash_heap_def)
  have 6: "distinct (map fst [(''context'', VInt 5)])" by simp
  from class_check_only_at_build[of VNone "[]" "VStr ''nt!_ETHREAD''" "[(''size'', VInt 8)]"] 1
  have a: "fst (ObjectTemplate_init [] VNone (VStr ''nt!_ETHREAD'') [(''size'', VInt 8)])
     = Inl ValidationError" by blast
  from class_check_only_at_build[of
      "VClass \<lparr>class_name = ''dict'', is_object_interface = False, nested_layout = False,
              membership_first = False\<rparr>"
      "[]" "VStr ''nt!_ETHREAD''" "[(''size'', VInt 8)]"] 2
  have b: "fst (ObjectTemplate_init []
            (VClass \<lparr>class_name = ''dict'', is_object_interface = False, nested_layout = False,
              membership_first = False\<rparr>)
            (VStr ''nt!_ETHREAD'') [(''size'', VInt 8)])
     = Inl ValidationError" by blast
  from class_check_only_at_build[of "VClass Struct_class" "[]" "VStr ''nt!_ETHREAD''"
      "[(''size'', VInt 8)]" ?ctx "(''primary'', 0)",
      THEN conjunct2, THEN conjunct1, rule_format, OF conjI[OF 3 4], of "[]"]
  have c: "\<exists>obj h''. ObjectTemplate_call
              [Dict [(''size'', VInt 8), (''structure_name'', VStr ''nt!_ETHREAD''),
                     (''object_class'', VClass Struct_class)], ObjectTemplate 0]
              1 ?ctx (''primary'', 0) = (Inr obj, h'')"
    by simp
  from class_check_only_at_build[of "VClass Struct_class" "[]" "VStr ''nt!_ETHREAD''"
      "[(''context'', VInt 5)]" ?ctx "(''primary'', 0)",
      THEN conjunct2, THEN conjunct1, rule_format, OF conjI[OF 5 6], of "[]"]
  have d: "fst (ObjectTemplate_call clash_heap 1 ?ctx (''primary'', 0)) = Inl TypeError"
    by simp
  from a b c d 3 5 show ?thesis by blast
qed

text \<open>
  Claim C4, amended.  A direct template whose parameters hold no key \<^verbatim>\<open>context\<close> or
  \<^verbatim>\<open>object_info\<close> constructs the Object from its own class, the given context and
  location, and its own parameters without the \<^verbatim>\<open>object_class\<close> entry, in their order
  and unchanged, and is itself unchanged by the call; for a template just built the
  arguments are the ones it was built with together with the structure name.  With a
  parameter named \<^verbatim>\<open>context\<close> or \<^verbatim>\<open>object_info\<close> the call fails with a type error.
\<close>

theorem construct_forwards_parameters:
  assumes "fetch h self = Some (ObjectTemplate d)" and "fetch h d = Some (Dict vi)"
    and "distinct (map fst vi)" and "map_of vi ''object_class'' = Some (VClass cls)"
  shows "(''context'' \<notin> fst ` set vi \<and> ''object_info'' \<notin> fst ` set vi \<longrightarrow>
          (\<exists>obj h'. ObjectTemplate_call h self ctx object_info = (Inr obj, h')
            \<and> obj_class obj = cls \<and> obj_context obj = ctx \<and> obj_info obj = object_info
            \<and> obj_arguments obj = AList.delete ''object_class'' vi
            \<and> map_of (obj_arguments obj) = (map_of vi)(''object_class'' := None)
            \<and> fetch h' self = Some (ObjectTemplate d) \<and> fetch h' d = Some (Dict vi)
            \<and> (\<forall>h0 object_class structure_name arguments.
                  ObjectTemplate_init h0 object_class structure_name arguments = (Inr self, h)
                \<and> distinct (map fst arguments)
                \<and> ''object_class'' \<notin> fst ` set arguments \<longrightarrow>
                  obj_arguments obj = AList.update ''structure_name'' structure_name arguments)))
       \<and> (''context'' \<in> fst ` set vi \<or> ''object_info'' \<in> fst ` set vi \<longrightarrow>
            fst (ObjectTemplate_call h self ctx object_info) = Inl TypeError)"
proof (intro conjI impI)
  assume keys: "''context'' \<notin> fst ` set vi \<and> ''object_info'' \<notin> fst ` set vi"
  let ?obj = "\<lparr>obj_class = cls, obj_context = ctx, obj_info = object_info,
               obj_arguments = AList.delete ''object_class'' vi\<rparr>"
  let ?h' = "h @ [Dict (AList.delete ''object_class'' vi)]"
  have run: "ObjectTemplate_call h self ctx object_info = (Inr ?obj, ?h')"
    using assms keys by (intro ObjectTemplate_call_ok) blast+
  have built: "AList.delete ''object_class'' vi
                 = AList.update ''structure_name'' structure_name arguments"
    if a: "ObjectTemplate_init h0 object_class structure_name arguments = (Inr self, h)
          \<and> distinct (map fst arguments) \<and> ''object_class'' \<notin> fst ` set arguments"
    for h0 object_class structure_name arguments
  proof -
    from a built_template[of h0 object_class structure_name arguments self h]
    obtain d' c where "fetch h self = Some (ObjectTemplate d')"
      and "fetch h d' = Some (Dict (AList.update ''object_class'' (VClass c)
                   (AList.update ''structure_name'' structure_name arguments)))"
      by blast
    with assms(1,2) have "vi = AList.update ''object_class'' (VClass c)
                   (AList.update ''structure_name'' structure_name arguments)"
      by simp
    then have "AList.delete ''object_class'' vi
        = AList.delete ''object_class'' (AList.update ''structure_name'' structure_name arguments)"
      by (simp add: delete_update_same)
    also have "\<dots> = AList.update ''structure_name'' structure_name
                       (AList.delete ''object_class'' arguments)"
      by (simp add: delete_update)
    also have "\<dots> = AList.update ''structure_name'' structure_name arguments"
      using a by simp
    finally show ?thesis .
  qed
  have "map_of (obj_arguments ?obj) = (map_of vi)(''object_class'' := None)"
    by (simp add: delete_conv')
  moreover have "fetch ?h' self = Some (ObjectTemplate d)"
    and "fetch ?h' d = Some (Dict vi)"
    using assms(1,2) by (simp_all add: fetch_Some_less)
  ultimately show "\<exists>obj h'. ObjectTemplate_call h self ctx object_info = (Inr obj, h')
            \<and> obj_class obj = cls \<and> obj_context obj = ctx \<and> obj_info obj = object_info
            \<and> obj_arguments obj = AList.delete ''object_class'' vi
            \<and> map_of (obj_arguments obj) = (map_of vi)(''object_class'' := None)
            \<and> fetch h' self = Some (ObjectTemplate d) \<and> fetch h' d = Some (Dict vi)
            \<and> (\<forall>h0 object_class structure_name arguments.
                  ObjectTemplate_init h0 object_class structure_name arguments = (Inr self, h)
                \<and> distinct (map fst arguments)
                \<and> ''object_class'' \<notin> fst ` set arguments \<longrightarrow>
                  obj_arguments obj = AList.update ''structure_name'' structure_name arguments)"
    using run built by (intro exI[of _ ?obj] exI[of _ ?h']) auto
next
  assume "''context'' \<in> fst ` set vi \<or> ''object_info'' \<in> fst ` set vi"
  with assms show "fst (ObjectTemplate_call h self ctx object_info) = Inl TypeError"
    by (rule ObjectTemplate_call_clash)
qed

theorem construct_forwards_parameters_witness:
  "(\<exists>h'. ObjectTemplate_call example_heap 1 \<lparr>symbol_space = Map.empty\<rparr> (''primary'', 4096)
     = (Inr \<lparr>obj_class = Struct_class, obj_context = \<lparr>symbol_space = Map.empty\<rparr>,
            obj_info = (''primary'', 4096),
            obj_arguments = [(''structure_name'', VStr ''nt!_LIST_ENTRY''), (''size'', VInt 8),
                            (''members'', VMembers [(0, 3), (4, 5)])]\<rparr>, h'))
   \<and> fst (ObjectTemplate_call clash_heap 1 \<lparr>symbol_space = Map.empty\<rparr> (''primary'', 4096))
       = Inl TypeError"
proof -
  let ?vt = "[(''structure_name'', VStr ''nt!_LIST_ENTRY''), (''size'', VInt 8),
           (''members'', VMembers [(0, 3), (4, 5)]), (''object_class'', VClass Struct_class)]"
  let ?vc = "[(''context'', VInt 5), (''structure_name'', VStr ''nt!_ETHREAD''),
            (''object_class'', VClass Struct_class)]"
  have 4: "fetch example_heap 1 = Some (ObjectTemplate 0)"
    and 5: "fetch example_heap 0 = Some (Dict ?vt)"
    and 6: "distinct (map fst ?vt)"
    and 7: "map_of ?vt ''object_class'' = Some (VClass Struct_class)"
    and 8: "''context'' \<notin> fst ` set ?vt \<and> ''object_info'' \<notin> fst ` set ?vt"
    and c4: "fetch clash_heap 1 = Some (ObjectTemplate 0)"
    and c5: "fetch clash_heap 0 = Some (Dict ?vc)"
    and c6: "distinct (map fst ?vc)"
    and c7: "map_of ?vc ''object_class'' = Some (VClass Struct_class)"
    and c8: "''context'' \<in> fst ` set ?vc \<or> ''object_info'' \<in> fst ` set ?vc"
    by (simp_all add: fetch_def example_heap_def clash_heap_def)
  from construct_forwards_parameters[OF 4 5 6 7, of "\<lparr>symbol_space = Map.empty\<rparr>"
         "(''primary'', 4096)"] 8
  obtain obj h' where
    "ObjectTemplate_call example_heap 1 \<lparr>symbol_space = Map.empty\<rparr> (''primary'', 4096)
       = (Inr obj, h')"
    "obj_class obj = Struct_class" "obj_context obj = \<lparr>symbol_space = Map.empty\<rparr>"
    "obj_info obj = (''primary'', 4096)"
    "obj_arguments obj = AList.delete ''object_class'' ?vt"
    by blast
  then have a: "\<exists>h'. ObjectTemplate_call example_heap 1 \<lparr>symbol_space = Map.empty\<rparr>
        (''primary'', 4096)
     = (Inr \<lparr>obj_class = Struct_class, obj_context = \<lparr>symbol_space = Map.empty\<rparr>,
            obj_info = (''primary'', 4096),
            obj_arguments = [(''structure_name'', VStr ''nt!_LIST_ENTRY''), (''size'', VInt 8),
                            (''members'', VMembers [(0, 3), (4, 5)])]\<rparr>, h')"
    by (cases obj) (simp add: AList.delete_eq)
  from construct_forwards_parameters[OF c4 c5 c6 c7, of "\<lparr>symbol_space = Map.empty\<rparr>"
         "(''primary'', 4096)"] c8
  have "fst (ObjectTemplate_call clash_heap 1 \<lparr>symbol_space = Map.empty\<rparr> (''primary'', 4096))
       = Inl TypeError"
    by blast
  with a show ?thesis by blast
qed

text \<open>
  The claim as stated fails in two places.  A template built with a parameter named
  \<^verbatim>\<open>context\<close> forwards nothing: its call fails with a type error.  And the call never
  asks the class for the size of the template: for an implementation that is eight bytes
  wide, a template built with a size of four hands the size four to the constructor.
\<close>

theorem construct_forwards_parameters_counterexample:
  "ObjectTemplate_init [] (VClass Struct_class) (VStr ''nt!_ETHREAD'') [(''context'', VInt 5)]
     = (Inr 1, clash_heap)
   \<and> fst (ObjectTemplate_call clash_heap 1 \<lparr>symbol_space = Map.empty\<rparr> (''primary'', 0))
       = Inl TypeError
   \<and> size_template eight_bytes_wide example_heap 3 = Inr 8
   \<and> fst (ObjectTemplate_call example_heap 3 \<lparr>symbol_space = Map.empty\<rparr> (''primary'', 0))
       = Inr \<lparr>obj_class = Integer_class, obj_context = \<lparr>symbol_space = Map.empty\<rparr>,
              obj_info = (''primary'', 0),
              obj_arguments = [(''structure_name'', VStr ''nt!pointer''), (''size'', VInt 4)]\<rparr>"
  by (simp add: ObjectTemplate_init_def Template_init_def alloc_def class_check_def
        Struct_class_def update_volinfo_def volinfo_def dict_update_def fetch_def clash_heap_def
        ObjectTemplate_call_def dict_items_def dict_delitem_def volinfo_attr_def
        size_template_def object_class_of_def eight_bytes_wide_def example_heap_def
        Integer_class_def)

text \<open>
  Claim C9.  After any number of constructions the template object and its parameter
  dictionary are what they were, \<^verbatim>\<open>object_class\<close> included, and so is every object that
  existed before: the deletion of \<^verbatim>\<open>object_class\<close> happens in the freshly allocated copy.
\<close>

theorem construct_does_not_mutate_template:
  assumes "fetch h self = Some (ObjectTemplate d)" and "fetch h d = Some (Dict vi)"
  shows "fetch (construct_many h self calls) self = Some (ObjectTemplate d)
       \<and> fetch (construct_many h self calls) d = Some (Dict vi)
       \<and> (\<forall>a < length h. fetch (construct_many h self calls) a = fetch h a)
       \<and> (\<forall>v. map_of vi ''object_class'' = Some v \<longrightarrow>
            volinfo_attr (construct_many h self calls) self ''object_class'' = Inr v)
       \<and> (\<forall>cls ctx object_info.
            distinct (map fst vi) \<and> map_of vi ''object_class'' = Some (VClass cls) \<longrightarrow>
            snd (ObjectTemplate_call h self ctx object_info)
              = h @ [Dict (AList.delete ''object_class'' vi)])"
proof -
  let ?h = "construct_many h self calls"
  have s: "fetch ?h self = Some (ObjectTemplate d)" and d: "fetch ?h d = Some (Dict vi)"
    using assms by (simp_all add: construct_many_fetch)
  obtain xs where "?h = h @ xs" using construct_many_frame by blast
  then have frame: "\<forall>a < length h. fetch ?h a = fetch h a" by simp
  have attr: "\<forall>v. map_of vi ''object_class'' = Some v \<longrightarrow>
            volinfo_attr ?h self ''object_class'' = Inr v"
    using s d by (simp add: volinfo_attr_def volinfo_def dict_items_def)
  have copy: "\<forall>cls ctx object_info.
            distinct (map fst vi) \<and> map_of vi ''object_class'' = Some (VClass cls) \<longrightarrow>
            snd (ObjectTemplate_call h self ctx object_info)
              = h @ [Dict (AList.delete ''object_class'' vi)]"
  proof (intro allI impI)
    fix cls ctx object_info
    assume "distinct (map fst vi) \<and> map_of vi ''object_class'' = Some (VClass cls)"
    then have "distinct (map fst vi)" "map_of vi ''object_class'' = Some (VClass cls)"
      by blast+
    with assms show "snd (ObjectTemplate_call h self ctx object_info)
            = h @ [Dict (AList.delete ''object_class'' vi)]"
      by (rule ObjectTemplate_call_heap)
  qed
  from s d frame attr copy show ?thesis by blast
qed

theorem construct_does_not_mutate_template_witness:
  "fetch (construct_many example_heap 1
            [(\<lparr>symbol_space = Map.empty\<rparr>, (''primary'', 0)),
             (\<lparr>symbol_space = Map.empty\<rparr>, (''primary'', 64))]) 0
     = Some (Dict [(''structure_name'', VStr ''nt!_LIST_ENTRY''), (''size'', VInt 8),
                   (''members'', VMembers [(0, 3), (4, 5)]),
                   (''object_class'', VClass Struct_class)])
   \<and> volinfo_attr (construct_many example_heap 1
            [(\<lparr>symbol_space = Map.empty\<rparr>, (''primary'', 0)),
             (\<lparr>symbol_space = Map.empty\<rparr>, (''primary'', 64))]) 1 ''object_class''
     = Inr (VClass Struct_class)"
proof -
  let ?vt = "[(''structure_name'', VStr ''nt!_LIST_ENTRY''), (''size'', VInt 8),
           (''members'', VMembers [(0, 3), (4, 5)]), (''object_class'', VClass Struct_class)]"
  have 4: "fetch example_heap 1 = Some (ObjectTemplate 0)"
    and 5: "fetch example_heap 0 = Some (Dict ?vt)"
    and 7: "map_of ?vt ''object_class'' = Some (VClass Struct_class)"
    by (simp_all add: fetch_def example_heap_def)
  from construct_does_not_mutate_template[OF 4 5] 7 show ?thesis by blast
qed

subsection \<open>Children of a direct template\<close>



















end
